theory Spec2Isabelle
  imports Complex_Main "HOL-Library.Word"
begin

section \<open>Strings\<close>

text \<open>
  A JavaScript string is a sequence of UTF-16 code units. \<open>String.prototype.trim\<close>
  removes the ECMAScript white space and line terminator code units from both ends;
  all of them lie in the basic plane, so each is one code unit.
\<close>

type_synonym jsstring = "16 word list"

definition isWhiteSpace :: "16 word \<Rightarrow> bool" where
  "isWhiteSpace c \<longleftrightarrow>
     c = 0x0009 \<or> c = 0x000A \<or> c = 0x000B \<or> c = 0x000C \<or> c = 0x000D \<or>
     c = 0x0020 \<or> c = 0x00A0 \<or> c = 0x1680 \<or> (0x2000 \<le> c \<and> c \<le> 0x200A) \<or>
     c = 0x2028 \<or> c = 0x2029 \<or> c = 0x202F \<or> c = 0x205F \<or> c = 0x3000 \<or>
     c = 0xFEFF"

definition trim :: "jsstring \<Rightarrow> jsstring" where
  "trim str = rev (dropWhile isWhiteSpace (rev (dropWhile isWhiteSpace str)))"

text \<open>
  \<open>encodeURIComponent\<close> throws \<open>URIError\<close> on a string with a lone surrogate: a lead
  surrogate that no trail surrogate follows, or a trail surrogate that no lead
  surrogate precedes.
\<close>

definition isLeadSurrogate :: "16 word \<Rightarrow> bool" where
  "isLeadSurrogate c \<longleftrightarrow> 0xD800 \<le> c \<and> c \<le> 0xDBFF"

definition isTrailSurrogate :: "16 word \<Rightarrow> bool" where
  "isTrailSurrogate c \<longleftrightarrow> 0xDC00 \<le> c \<and> c \<le> 0xDFFF"

fun isWellFormed :: "jsstring \<Rightarrow> bool" where
  "isWellFormed [] = True"
| "isWellFormed [c] = (\<not> isLeadSurrogate c \<and> \<not> isTrailSurrogate c)"
| "isWellFormed (c # d # rest) =
     (if isLeadSurrogate c then isTrailSurrogate d \<and> isWellFormed rest
      else \<not> isTrailSurrogate c \<and> isWellFormed (d # rest))"

text \<open>
  The operator \<open>??\<close>: \<open>a ?? b\<close> is \<open>b\<close> when \<open>a\<close> is \<open>null\<close> or \<open>undefined\<close> (\<open>None\<close>), and
  \<open>a\<close> otherwise. The value of a form control is a string or \<open>null\<close>.
\<close>

definition nullish :: "'a option \<Rightarrow> 'a \<Rightarrow> 'a" where
  "nullish a b = (case a of None \<Rightarrow> b | Some x \<Rightarrow> x)"

text \<open>The code units of an ASCII literal, to write concrete inputs.\<close>

definition lit :: "string \<Rightarrow> jsstring" where
  "lit cs = map (\<lambda>c. of_nat (of_char c)) cs"

section \<open>Data model\<close>

text \<open>
  \<open>Suggestion\<close>, \<open>SuggestResponse\<close>, \<open>ImpressionEvent\<close> and \<open>ClickEvent\<close> of the
  source. The field \<open>text\<close> of a suggestion is \<open>stext\<close> here. A score is a JavaScript
  number that this code never inspects. The field \<open>suggestions\<close> of a response may be
  missing at run time (the code reads it with \<open>??\<close>), hence the option.
\<close>

record suggestion =
  stext :: jsstring
  score :: real

datatype suggestResponse = SuggestResponse (res_suggestions: "suggestion list option")

datatype log_event =
  ImpressionEvent (query: jsstring) (candidates: "jsstring list") (clicked: "jsstring option")
| ClickEvent (query: jsstring) (candidate: jsstring)

text \<open>
  What reaches the console or the global error handler: a failed post, and an error
  that ends the pipeline unhandled, either the failure of a request or the exception
  thrown while a request is built.
\<close>

datatype diagnostic =
  Impression_log_failed
| Click_log_failed
| Unhandled_suggest_error
| Unhandled_URIError

datatype error = URIError

datatype sub_status = No_Sub | Sub_Active | Sub_Closed

text \<open>
  The component. The first six fields are the fields of \<open>SearchBarComponent\<close>
  (\<open>sub\<close> is the subscription made by \<open>ngOnInit\<close>). The next five are the state the
  stream operators and the timers keep: the clock in milliseconds, the value held by
  \<open>debounceTime\<close> with the instant it is due, the last value let through by
  \<open>distinctUntilChanged\<close>, the request \<open>switchMap\<close> is subscribed to, and the instants
  at which the timers set by \<open>onBlur\<close> are due. The last four record what the component
  has sent: the GET requests to \<open>/suggest\<close> (prefix and \<open>k\<close>; a request is named by its
  position), the events posted to \<open>/log_event\<close>, the posts still in flight, and the
  diagnostics.
\<close>

record component =
  searchControl :: "jsstring option"
  suggestions :: "suggestion list"
  isOpen :: bool
  sub :: sub_status
  lastQueryForImpression :: jsstring
  lastCandidates :: "jsstring list"
  now :: nat
  debounce :: "(jsstring option \<times> nat) option"
  distinct_prev :: "jsstring option option"
  inflight :: "nat option"
  blur_timers :: "nat list"
  requests :: "(jsstring \<times> nat) list"
  posts :: "log_event list"
  open_posts :: "nat list"
  diagnostics :: "diagnostic list"

section \<open>SearchApiService\<close>

text \<open>
  \<open>getSuggestions\<close> builds a cold request; \<open>switchMap\<close> subscribes to it at once, which
  sends it. Building the request encodes the prefix as a query parameter, which throws
  when the prefix has a lone surrogate: then nothing is sent.
\<close>

definition getSuggestions :: "jsstring \<Rightarrow> nat \<Rightarrow> component \<Rightarrow> error + component" where
  "getSuggestions prefix k s =
     (if isWellFormed prefix
      then Inr (s\<lparr>requests := requests s @ [(prefix, k)],
                  inflight := Some (length (requests s))\<rparr>)
      else Inl URIError)"

text \<open>\<open>logImpression\<close> and \<open>logClick\<close> post the event; the caller subscribes at once.\<close>

definition post_event :: "log_event \<Rightarrow> component \<Rightarrow> component" where
  "post_event ev s =
     s\<lparr>posts := posts s @ [ev], open_posts := open_posts s @ [length (posts s)]\<rparr>"

definition logImpression :: "log_event \<Rightarrow> component \<Rightarrow> component" where
  "logImpression ev s = post_event ev s"

definition logClick :: "log_event \<Rightarrow> component \<Rightarrow> component" where
  "logClick ev s = post_event ev s"

section \<open>SearchBarComponent\<close>

text \<open>The component as constructed, and \<open>ngOnInit\<close>, which subscribes the pipeline.\<close>

definition constructed :: component where
  "constructed =
     \<lparr>searchControl = Some [], suggestions = [], isOpen = False, sub = No_Sub,
      lastQueryForImpression = [], lastCandidates = [], now = 0, debounce = None,
      distinct_prev = None, inflight = None, blur_timers = [], requests = [],
      posts = [], open_posts = [], diagnostics = []\<rparr>"

definition ngOnInit :: "component \<Rightarrow> component" where
  "ngOnInit s = s\<lparr>sub := Sub_Active, debounce := None, distinct_prev := None, inflight := None\<rparr>"

definition started :: component where
  "started = ngOnInit constructed"

subsection \<open>Unsubscribing and errors\<close>

text \<open>
  Unsubscribing clears the debounce timer and the subscription to the request in
  flight. An error in the pipeline does the same, since neither the pipeline nor its
  \<open>subscribe()\<close> handles errors, and the error is then rethrown as unhandled (the library
  does that from a timer of delay 0; it is recorded here at once). Two errors can
  occur: the request in flight fails, or the function given to \<open>switchMap\<close> throws.
\<close>

definition unsubscribe :: "component \<Rightarrow> component" where
  "unsubscribe s =
     (if sub s = Sub_Active
      then s\<lparr>sub := Sub_Closed, debounce := None, inflight := None\<rparr>
      else s)"

definition pipeline_error :: "diagnostic \<Rightarrow> component \<Rightarrow> component" where
  "pipeline_error dg s = (unsubscribe s)\<lparr>diagnostics := diagnostics s @ [dg]\<rparr>"

definition request_error :: "component \<Rightarrow> component" where
  "request_error s = pipeline_error Unhandled_suggest_error s"

subsection \<open>The pipeline, stage by stage\<close>

text \<open>
  The second \<open>tap\<close>: a response reaches it only from the request \<open>switchMap\<close> is
  subscribed to.
\<close>

definition tap_response :: "suggestResponse \<Rightarrow> component \<Rightarrow> component" where
  "tap_response res s =
     (let s1 = s\<lparr>suggestions := nullish (res_suggestions res) []\<rparr>;
          s2 = s1\<lparr>lastCandidates := map stext (suggestions s1)\<rparr>
      in if length (lastCandidates s2) > 0
         then logImpression
                (ImpressionEvent (lastQueryForImpression s2) (lastCandidates s2) None) s2
         else s2)"

text \<open>
  On a value, \<open>switchMap\<close> first drops the subscription to the request before, then calls
  the function it was given, which stores the prefix and builds the request; when that
  throws, \<open>switchMap\<close> passes the exception on as an error of the pipeline.
\<close>

definition switchMap_next :: "jsstring option \<Rightarrow> component \<Rightarrow> component" where
  "switchMap_next val s =
     (let s0 = s\<lparr>inflight := None\<rparr>;
          prefix = trim (nullish val []);
          s1 = s0\<lparr>lastQueryForImpression := prefix\<rparr>
      in case getSuggestions prefix 10 s1 of
           Inr s2 \<Rightarrow> s2
         | Inl URIError \<Rightarrow> pipeline_error Unhandled_URIError s1)"

definition tap_open :: "jsstring option \<Rightarrow> component \<Rightarrow> component" where
  "tap_open val s = switchMap_next val (s\<lparr>isOpen := True\<rparr>)"

text \<open>\<open>distinctUntilChanged()\<close> compares with \<open>===\<close> the values as they leave the filter.\<close>

definition distinctUntilChanged :: "jsstring option \<Rightarrow> component \<Rightarrow> component" where
  "distinctUntilChanged val s =
     (if distinct_prev s = Some val then s
      else tap_open val (s\<lparr>distinct_prev := Some val\<rparr>))"

definition filter_next :: "jsstring option \<Rightarrow> component \<Rightarrow> component" where
  "filter_next val s =
     (if length (trim (nullish val [])) > 0 then distinctUntilChanged val s else s)"

text \<open>
  \<open>debounceTime(250)\<close> keeps the last value and the instant 250 ms after it came; when
  that instant is reached with no newer value, the value goes on to the filter.
\<close>

definition debounce_emit :: "component \<Rightarrow> component" where
  "debounce_emit s =
     (case debounce s of
        None \<Rightarrow> s
      | Some (val, due) \<Rightarrow> filter_next val (s\<lparr>debounce := None\<rparr>))"

definition valueChanges :: "jsstring option \<Rightarrow> component \<Rightarrow> component" where
  "valueChanges val s =
     (if sub s = Sub_Active then s\<lparr>debounce := Some (val, now s + 250)\<rparr> else s)"

subsection \<open>The methods\<close>

definition onSuggestionClick :: "suggestion \<Rightarrow> component \<Rightarrow> component" where
  "onSuggestionClick sg s =
     (let query = (if lastQueryForImpression s \<noteq> [] then lastQueryForImpression s
                   else nullish (searchControl s) []);
          s1 = s\<lparr>searchControl := Some (stext sg)\<rparr>;
          s2 = s1\<lparr>isOpen := False\<rparr>
      in logClick (ClickEvent query (stext sg)) s2)"

definition onBlur :: "component \<Rightarrow> component" where
  "onBlur s = s\<lparr>blur_timers := blur_timers s @ [now s + 150]\<rparr>"

definition ngOnDestroy :: "component \<Rightarrow> component" where
  "ngOnDestroy s = unsubscribe s"

section \<open>Time and events\<close>

text \<open>
  The blur timers whose instants satisfy \<open>due\<close> fire: each sets \<open>isOpen\<close> to false.
\<close>

definition fire_blur_timers :: "(nat \<Rightarrow> bool) \<Rightarrow> component \<Rightarrow> component" where
  "fire_blur_timers due s =
     (if list_ex due (blur_timers s)
      then s\<lparr>isOpen := False, blur_timers := filter (\<lambda>b. \<not> due b) (blur_timers s)\<rparr>
      else s)"

text \<open>
  \<open>d\<close> milliseconds pass. Timers fire in the order of their instants. The source does
  not fix the order of a blur timer and the debounce timer due at the same instant; the
  debounce timer, which was set 250 ms before, goes before the blur timer, which was set
  150 ms before.
\<close>

definition elapse :: "nat \<Rightarrow> component \<Rightarrow> component" where
  "elapse d s =
     (let t = now s + d;
          s1 = (case debounce s of
                  None \<Rightarrow> s
                | Some (val, due) \<Rightarrow>
                    if due \<le> t then debounce_emit (fire_blur_timers (\<lambda>b. b < due) s) else s)
      in (fire_blur_timers (\<lambda>b. b \<le> t) s1)\<lparr>now := t\<rparr>)"

text \<open>
  What can happen to the component: the user edits the input (the control takes the
  value and \<open>valueChanges\<close> emits it), time passes, the request with a given number is
  answered or fails, a posted event with a given number fails or succeeds, and the
  methods are called.
\<close>

datatype event =
  Input "jsstring option"
| Elapse nat
| Suggest_Response nat suggestResponse
| Suggest_Failure nat
| Suggestion_Click suggestion
| Blur
| Destroy
| Log_Failure nat
| Log_Success nat

definition log_failed :: "nat \<Rightarrow> component \<Rightarrow> component" where
  "log_failed n s =
     (if n \<in> set (open_posts s)
      then s\<lparr>open_posts := removeAll n (open_posts s),
             diagnostics := diagnostics s @
               [case posts s ! n of
                  ImpressionEvent q cs c \<Rightarrow> Impression_log_failed
                | ClickEvent q c \<Rightarrow> Click_log_failed]\<rparr>
      else s)"

fun step :: "event \<Rightarrow> component \<Rightarrow> component" where
  "step (Input val) s = valueChanges val (s\<lparr>searchControl := val\<rparr>)"
| "step (Elapse d) s = elapse d s"
| "step (Suggest_Response i res) s =
     (if inflight s = Some i then (tap_response res s)\<lparr>inflight := None\<rparr> else s)"
| "step (Suggest_Failure i) s =
     (if inflight s = Some i then request_error s else s)"
| "step (Suggestion_Click sg) s = onSuggestionClick sg s"
| "step Blur s = onBlur s"
| "step Destroy s = ngOnDestroy s"
| "step (Log_Failure n) s = log_failed n s"
| "step (Log_Success n) s = s\<lparr>open_posts := removeAll n (open_posts s)\<rparr>"

definition run :: "event list \<Rightarrow> component \<Rightarrow> component" where
  "run evs s = fold step evs s"

section \<open>Notions used to state the properties\<close>

text \<open>
  The request \<open>switchMap\<close> is subscribed to is the last one sent, and its prefix is the
  stored query.
\<close>

definition current_ok :: "component \<Rightarrow> bool" where
  "current_ok s =
     (case inflight s of
        None \<Rightarrow> True
      | Some i \<Rightarrow> Suc i = length (requests s) \<and> requests s ! i = (lastQueryForImpression s, 10))"

text \<open>A pipeline that is not subscribed holds no value and no request.\<close>

definition quiet_unless_active :: "component \<Rightarrow> bool" where
  "quiet_unless_active s \<longleftrightarrow> sub s = Sub_Active \<or> (debounce s = None \<and> inflight s = None)"

text \<open>
  A burst of input changes: each value comes with the time that passes before the next
  change.
\<close>

fun burst_events :: "(jsstring option \<times> nat) list \<Rightarrow> event list" where
  "burst_events [] = []"
| "burst_events ((val, gap) # rest) = Input val # Elapse gap # burst_events rest"

section \<open>Auxiliary facts\<close>

lemmas stage_defs = valueChanges_def debounce_emit_def filter_next_def distinctUntilChanged_def
  tap_open_def switchMap_next_def getSuggestions_def tap_response_def logImpression_def
  logClick_def post_event_def unsubscribe_def pipeline_error_def request_error_def nullish_def
lemmas method_defs = onSuggestionClick_def onBlur_def ngOnDestroy_def
lemmas time_defs = elapse_def fire_blur_timers_def log_failed_def
lemmas start_defs = run_def started_def ngOnInit_def constructed_def
lemmas string_defs = trim_def lit_def isWhiteSpace_def isLeadSurrogate_def isTrailSurrogate_def

lemma run_Cons: "run (ev # evs) s = run evs (step ev s)"
  by (simp add: run_def)

lemma current_ok_started: "current_ok started"
  by (simp add: current_ok_def start_defs)

lemma current_ok_step: "current_ok s \<Longrightarrow> current_ok (step ev s)"
  by (cases ev)
    (auto simp: current_ok_def stage_defs method_defs time_defs Let_def nth_append
          split: option.splits if_splits prod.splits)

lemma current_ok_run: "current_ok s \<Longrightarrow> current_ok (run evs s)"
  unfolding run_def by (induction evs arbitrary: s) (simp_all add: current_ok_step)

lemma quiet_started: "quiet_unless_active started"
  by (simp add: quiet_unless_active_def start_defs)

lemma quiet_step: "quiet_unless_active s \<Longrightarrow> quiet_unless_active (step ev s)"
  by (cases ev)
    (auto simp: quiet_unless_active_def stage_defs method_defs time_defs Let_def
          split: option.splits if_splits prod.splits)

lemma quiet_run: "quiet_unless_active s \<Longrightarrow> quiet_unless_active (run evs s)"
  unfolding run_def by (induction evs arbitrary: s) (simp_all add: quiet_step)

lemmas all_defs = stage_defs method_defs time_defs start_defs string_defs current_ok_def
  quiet_unless_active_def Let_def

subsection \<open>The debounce timer\<close>

lemma elapse_before_due:
  assumes "debounce s = Some (val, due)" and "now s + g < due"
  shows "requests (elapse g s) = requests s \<and> distinct_prev (elapse g s) = distinct_prev s
       \<and> sub (elapse g s) = sub s \<and> debounce (elapse g s) = Some (val, due)
       \<and> now (elapse g s) = now s + g"
  using assms by (simp add: elapse_def fire_blur_timers_def Let_def)

lemma elapse_past_due:
  assumes "debounce s = Some (val, due)" and "due \<le> now s + d"
  shows "requests (elapse d s) =
           requests s @ (if 0 < length (trim (nullish val [])) \<and> distinct_prev s \<noteq> Some val
                            \<and> isWellFormed (trim (nullish val []))
                         then [(trim (nullish val []), 10)] else [])"
  using assms
  by (simp add: elapse_def fire_blur_timers_def debounce_emit_def filter_next_def
      distinctUntilChanged_def tap_open_def switchMap_next_def getSuggestions_def
      pipeline_error_def unsubscribe_def Let_def)

lemma elapse_idle:
  assumes "debounce s = None"
  shows "requests (elapse d s) = requests s"
  using assms by (simp add: elapse_def fire_blur_timers_def Let_def)

lemma burst_holds_last:
  assumes "sub s = Sub_Active" and "\<forall>(v, g) \<in> set burst. g < 250"
  shows "requests (run (burst_events burst @ [Input val]) s) = requests s
       \<and> distinct_prev (run (burst_events burst @ [Input val]) s) = distinct_prev s
       \<and> sub (run (burst_events burst @ [Input val]) s) = Sub_Active
       \<and> debounce (run (burst_events burst @ [Input val]) s) =
             Some (val, now (run (burst_events burst @ [Input val]) s) + 250)"
  using assms
proof (induction burst arbitrary: s)
  case Nil
  then show ?case by (simp add: run_def valueChanges_def)
next
  case (Cons vg rest)
  obtain v g where vg: "vg = (v, g)" by (cases vg)
  let ?s1 = "elapse g (step (Input v) s)"
  from Cons.prems vg have g: "g < 250" by simp
  have held: "debounce (step (Input v) s) = Some (v, now s + 250)"
    and nw: "now (step (Input v) s) = now s"
    and rq: "requests (step (Input v) s) = requests s"
    and dp: "distinct_prev (step (Input v) s) = distinct_prev s"
    and sb: "sub (step (Input v) s) = Sub_Active"
    using Cons.prems(1) by (simp_all add: valueChanges_def)
  from g nw have "now (step (Input v) s) + g < now s + 250" by simp
  from elapse_before_due [OF held this]
  have s1: "requests ?s1 = requests s" "distinct_prev ?s1 = distinct_prev s"
    "sub ?s1 = Sub_Active"
    using rq dp sb by simp_all
  from Cons.prems(2) have "\<forall>(v, g) \<in> set rest. g < 250" by simp
  from Cons.IH [OF s1(3) this] s1(1,2)
  show ?case by (simp add: vg run_Cons)
qed

text \<open>
  When the debounce timer fires, either the pipeline stays subscribed, and an accepted
  value is then the value let through last, or the pipeline was closed by an error and
  holds no value.
\<close>

lemma elapse_past_due_state:
  assumes "debounce s = Some (val, due)" and "due \<le> now s + d" and "sub s = Sub_Active"
  shows "(sub (elapse d s) = Sub_Active
          \<and> (0 < length (trim (nullish val [])) \<longrightarrow> distinct_prev (elapse d s) = Some val))
       \<or> (sub (elapse d s) \<noteq> Sub_Active \<and> debounce (elapse d s) = None)"
  using assms
  by (simp add: elapse_def fire_blur_timers_def debounce_emit_def filter_next_def
      distinctUntilChanged_def tap_open_def switchMap_next_def getSuggestions_def
      pipeline_error_def unsubscribe_def Let_def)

lemma elapse_after_same_value:
  assumes "debounce s = Some (val, due)"
    and "0 < length (trim (nullish val [])) \<longrightarrow> distinct_prev s = Some val"
  shows "requests (elapse d s) = requests s"
proof (cases "due \<le> now s + d")
  case True
  from elapse_past_due [OF assms(1) True] assms(2) show ?thesis by auto
next
  case False
  then have "now s + d < due" by simp
  from elapse_before_due [OF assms(1) this] show ?thesis by simp
qed

text \<open>
  A value whose trimmed form has a lone surrogate passes the filter and the
  de-duplication, opens the panel and is stored as the query; then building the request
  throws: nothing is sent and the pipeline is closed, so that later input sends nothing.
\<close>

lemma lone_surrogate_closes_pipeline:
  "requests (run [Input (Some [0x61, 0xD83D]), Elapse 250] started) = []
   \<and> sub (run [Input (Some [0x61, 0xD83D]), Elapse 250] started) = Sub_Closed
   \<and> diagnostics (run [Input (Some [0x61, 0xD83D]), Elapse 250] started) = [Unhandled_URIError]
   \<and> isOpen (run [Input (Some [0x61, 0xD83D]), Elapse 250] started)
   \<and> lastQueryForImpression (run [Input (Some [0x61, 0xD83D]), Elapse 250] started)
       = [0x61, 0xD83D]
   \<and> requests (run [Input (Some [0x61, 0xD83D]), Elapse 250,
                     Input (Some (lit ''b'')), Elapse 250] started) = []"
  by (simp add: all_defs)

text \<open>
  A blur timer and the debounce timer due at the same instant: the value is let through
  and opens the panel, then the blur timer closes it.
\<close>

lemma blur_timer_at_debounce_instant:
  "isOpen (run [Input (Some (lit ''a'')), Elapse 100, Blur, Elapse 149] started) = False
   \<and> isOpen (run [Input (Some (lit ''a'')), Elapse 100, Blur, Elapse 150] started) = False
   \<and> requests (run [Input (Some (lit ''a'')), Elapse 100, Blur, Elapse 150] started)
       = [(lit ''a'', 10)]"
  by (simp add: all_defs)

subsection \<open>A pipeline that is not subscribed\<close>

lemma closed_step:
  assumes "sub s \<noteq> Sub_Active" and "debounce s = None" and "inflight s = None"
    and "\<forall>sg. ev \<noteq> Suggestion_Click sg"
  shows "sub (step ev s) \<noteq> Sub_Active \<and> debounce (step ev s) = None
       \<and> inflight (step ev s) = None
       \<and> suggestions (step ev s) = suggestions s
       \<and> lastQueryForImpression (step ev s) = lastQueryForImpression s
       \<and> lastCandidates (step ev s) = lastCandidates s
       \<and> requests (step ev s) = requests s
       \<and> posts (step ev s) = posts s
       \<and> (isOpen (step ev s) \<longrightarrow> isOpen s)"
  using assms
  by (cases ev)
    (auto simp: valueChanges_def elapse_def fire_blur_timers_def onBlur_def ngOnDestroy_def
        unsubscribe_def log_failed_def Let_def)

lemma closed_run:
  assumes "sub s \<noteq> Sub_Active" and "debounce s = None" and "inflight s = None"
    and "\<forall>sg. Suggestion_Click sg \<notin> set evs"
  shows "suggestions (run evs s) = suggestions s
       \<and> lastQueryForImpression (run evs s) = lastQueryForImpression s
       \<and> lastCandidates (run evs s) = lastCandidates s
       \<and> requests (run evs s) = requests s
       \<and> posts (run evs s) = posts s
       \<and> (isOpen (run evs s) \<longrightarrow> isOpen s)"
  using assms
proof (induction evs arbitrary: s)
  case Nil
  then show ?case by (simp add: run_def)
next
  case (Cons ev evs)
  from Cons.prems(4) have ev: "\<forall>sg. ev \<noteq> Suggestion_Click sg"
    and evs: "\<forall>sg. Suggestion_Click sg \<notin> set evs" by auto
  note st = closed_step [OF Cons.prems(1-3) ev]
  from st have a: "sub (step ev s) \<noteq> Sub_Active" and b: "debounce (step ev s) = None"
    and c: "inflight (step ev s) = None" by simp_all
  from Cons.IH [OF a b c evs] st show ?case by (simp add: run_Cons)
qed

lemma destroyed_is_closed:
  assumes "quiet_unless_active s"
  shows "sub (ngOnDestroy s) \<noteq> Sub_Active \<and> debounce (ngOnDestroy s) = None
       \<and> inflight (ngOnDestroy s) = None"
  using assms by (auto simp: quiet_unless_active_def ngOnDestroy_def unsubscribe_def)

section \<open>The claims\<close>

subsection \<open>C1: stale responses\<close>

text \<open>
  C1. In every state the component can reach, a response (or a failure) of a request
  other than the last one sent changes nothing at all: not the displayed suggestions,
  not the posted events. So a response of an older request that arrives after a newer
  request was sent is discarded, in whatever order the responses arrive, and only the
  response of the last request sent can have an effect.
\<close>

theorem stale_response_discarded:
  assumes "Suc i \<noteq> length (requests (run evs started))"
  shows "step (Suggest_Response i res) (run evs started) = run evs started
       \<and> step (Suggest_Failure i) (run evs started) = run evs started"
proof -
  have "current_ok (run evs started)"
    by (rule current_ok_run [OF current_ok_started])
  with assms have "inflight (run evs started) \<noteq> Some i"
    by (auto simp: current_ok_def)
  then show ?thesis by simp
qed

text \<open>
  The request for \<open>c\<close> is in flight when the request for \<open>co\<close> is sent; the response for
  \<open>c\<close> then changes nothing.
\<close>

theorem stale_response_discarded_witness:
  "Suc 0 \<noteq> length (requests (run [Input (Some (lit ''c'')), Elapse 250, Input (Some (lit ''co'')), Elapse 250] started))
   \<and> step (Suggest_Response 0 (SuggestResponse (Some [\<lparr>stext = lit ''cat'', score = 0.9\<rparr>])))
        (run [Input (Some (lit ''c'')), Elapse 250, Input (Some (lit ''co'')), Elapse 250] started)
      = run [Input (Some (lit ''c'')), Elapse 250, Input (Some (lit ''co'')), Elapse 250] started"
proof -
  have h: "Suc 0 \<noteq> length (requests (run [Input (Some (lit ''c'')), Elapse 250, Input (Some (lit ''co'')), Elapse 250] started))"
    by (simp add: all_defs)
  from stale_response_discarded [OF h] show ?thesis using h by blast
qed

subsection \<open>C2: the query of a click\<close>

text \<open>
  C2. The suggestions for \<open>c\<close> are displayed and logged as an impression; the user then
  types \<open>co\<close>, whose request is sent and not yet answered, and selects the displayed
  suggestion \<open>cat\<close>. One click event is posted, and its query is \<open>co\<close>, the prefix of the
  request in flight, not \<open>c\<close>, the query that produced the displayed suggestions:
  \<open>lastQueryForImpression\<close> is written when a request is sent, not when its response is
  displayed.
\<close>

theorem click_query_while_newer_request_in_flight:
  "suggestions (run [Input (Some (lit ''c'')), Elapse 250, Suggest_Response 0 (SuggestResponse (Some [\<lparr>stext = lit ''cat'', score = 0.9\<rparr>])),
                     Input (Some (lit ''co'')), Elapse 250] started) = [\<lparr>stext = lit ''cat'', score = 0.9\<rparr>]
   \<and> inflight (run [Input (Some (lit ''c'')), Elapse 250, Suggest_Response 0 (SuggestResponse (Some [\<lparr>stext = lit ''cat'', score = 0.9\<rparr>])),
                     Input (Some (lit ''co'')), Elapse 250] started) = Some 1
   \<and> posts (run [Input (Some (lit ''c'')), Elapse 250, Suggest_Response 0 (SuggestResponse (Some [\<lparr>stext = lit ''cat'', score = 0.9\<rparr>])),
                  Input (Some (lit ''co'')), Elapse 250, Suggestion_Click \<lparr>stext = lit ''cat'', score = 0.9\<rparr>] started)
      = [ImpressionEvent (lit ''c'') [lit ''cat''] None, ClickEvent (lit ''co'') (lit ''cat'')]"
  by (simp add: all_defs)

subsection \<open>C3: one impression for each response displayed\<close>

text \<open>
  C3. In a reachable state, the response of the request in flight is displayed, and it
  posts exactly one impression event when it has suggestions (its query is the prefix
  of that request, its candidates are the texts of the suggestions in order, its
  \<open>clicked\<close> is null) and none when it has no suggestion. A failure of the request posts
  nothing, and so does a response of any other request.
\<close>

theorem impression_per_applied_response:
  assumes "s = run evs started" and "inflight s = Some i"
  shows "posts (step (Suggest_Response i res) s) =
           posts s @ (if nullish (res_suggestions res) [] = [] then []
                      else [ImpressionEvent (fst (requests s ! i))
                              (map stext (nullish (res_suggestions res) [])) None])
       \<and> suggestions (step (Suggest_Response i res) s) = nullish (res_suggestions res) []
       \<and> posts (step (Suggest_Failure i) s) = posts s
       \<and> (j \<noteq> i \<longrightarrow> posts (step (Suggest_Response j res) s) = posts s)"
proof -
  have "current_ok s"
    unfolding assms(1) by (rule current_ok_run [OF current_ok_started])
  with assms(2) have q: "fst (requests s ! i) = lastQueryForImpression s"
    by (simp add: current_ok_def)
  show ?thesis
    using assms(2) q
    by (simp add: tap_response_def logImpression_def post_event_def request_error_def
        pipeline_error_def
        unsubscribe_def Let_def)
qed

theorem impression_per_applied_response_witness:
  "inflight (run [Input (Some (lit ''cat'')), Elapse 250] started) = Some 0
   \<and> posts (step (Suggest_Response 0 (SuggestResponse (Some [\<lparr>stext = lit ''cat'', score = 0.9\<rparr>, \<lparr>stext = lit ''catalog'', score = 0.5\<rparr>])))
              (run [Input (Some (lit ''cat'')), Elapse 250] started))
      = [ImpressionEvent (lit ''cat'') [lit ''cat'', lit ''catalog''] None]
   \<and> posts (step (Suggest_Failure 0) (run [Input (Some (lit ''cat'')), Elapse 250] started)) = []
   \<and> posts (step (Suggest_Response 1 (SuggestResponse (Some [\<lparr>stext = lit ''cat'', score = 0.9\<rparr>, \<lparr>stext = lit ''catalog'', score = 0.5\<rparr>])))
              (run [Input (Some (lit ''cat'')), Elapse 250] started)) = []"
proof -
  have h: "inflight (run [Input (Some (lit ''cat'')), Elapse 250] started) = Some 0"
    by (simp add: all_defs)
  have r: "requests (run [Input (Some (lit ''cat'')), Elapse 250] started) = [(lit ''cat'', 10)]"
    and p: "posts (run [Input (Some (lit ''cat'')), Elapse 250] started) = []"
    by (simp_all add: all_defs)
  from impression_per_applied_response [OF refl h,
      of "SuggestResponse (Some [\<lparr>stext = lit ''cat'', score = 0.9\<rparr>, \<lparr>stext = lit ''catalog'', score = 0.5\<rparr>])" 1]
  show ?thesis using h r p by (simp add: nullish_def)
qed

subsection \<open>C4: a request that fails\<close>

text \<open>
  C4. The request for \<open>a\<close> fails. The displayed suggestions, the panel and the posted
  events stay as they were, and the error is left unhandled; but the subscription is
  closed by the error, and the later input \<open>b\<close> sends no request: the pipeline does not
  go on after a failure.
\<close>

theorem failed_request_closes_pipeline:
  "suggestions (run [Input (Some (lit ''a'')), Elapse 250, Suggest_Failure 0] started)
     = suggestions (run [Input (Some (lit ''a'')), Elapse 250] started)
   \<and> isOpen (run [Input (Some (lit ''a'')), Elapse 250, Suggest_Failure 0] started)
     = isOpen (run [Input (Some (lit ''a'')), Elapse 250] started)
   \<and> posts (run [Input (Some (lit ''a'')), Elapse 250, Suggest_Failure 0] started) = []
   \<and> diagnostics (run [Input (Some (lit ''a'')), Elapse 250, Suggest_Failure 0] started)
     = [Unhandled_suggest_error]
   \<and> sub (run [Input (Some (lit ''a'')), Elapse 250, Suggest_Failure 0] started) = Sub_Closed
   \<and> requests (run [Input (Some (lit ''a'')), Elapse 250, Suggest_Failure 0, Input (Some (lit ''b'')), Elapse 250] started)
     = [(lit ''a'', 10)]"
  by (simp add: all_defs)

subsection \<open>C5: consecutive equal values\<close>

text \<open>
  C5, amended. While the pipeline is subscribed, when the same value is typed twice, the
  first time followed by a quiet period of at least 250 ms, the second sends no
  request: it is suppressed by \<open>distinctUntilChanged\<close>, which compares the values as typed,
  not their trimmed forms. Together the two values send exactly one request when the
  value is not blank, differs from the value let through before and its trimmed form
  has no lone surrogate (so that the request can be built), and none otherwise.
\<close>

theorem dedup_compares_raw_values:
  assumes "sub s = Sub_Active" and "250 \<le> d1"
  shows "requests (run [Input val, Elapse d1, Input val, Elapse d2] s) =
           requests (run [Input val, Elapse d1] s)
       \<and> requests (run [Input val, Elapse d1, Input val, Elapse d2] s) =
           requests s @ (if 0 < length (trim (nullish val [])) \<and> distinct_prev s \<noteq> Some val
                            \<and> isWellFormed (trim (nullish val []))
                         then [(trim (nullish val []), 10)] else [])"
proof -
  let ?s1 = "step (Input val) s"
  let ?s2 = "elapse d1 ?s1"
  let ?s3 = "step (Input val) ?s2"
  have held1: "debounce ?s1 = Some (val, now ?s1 + 250)"
    and dp1: "distinct_prev ?s1 = distinct_prev s"
    and rq1: "requests ?s1 = requests s" and sb1: "sub ?s1 = Sub_Active"
    using assms(1) by (simp_all add: valueChanges_def)
  from assms(2) have due1: "now ?s1 + 250 \<le> now ?s1 + d1" by simp
  note rq2 = elapse_past_due [OF held1 due1]
  have rq3: "requests ?s3 = requests ?s2"
    by (simp add: valueChanges_def)
  have "requests (elapse d2 ?s3) = requests ?s3"
  proof (cases "sub ?s2 = Sub_Active")
    case True
    with elapse_past_due_state [OF held1 due1 sb1]
    have dp2: "0 < length (trim (nullish val [])) \<longrightarrow> distinct_prev ?s2 = Some val"
      by blast
    have held3: "debounce ?s3 = Some (val, now ?s3 + 250)"
      and dp3: "distinct_prev ?s3 = distinct_prev ?s2"
      using True by (simp_all add: valueChanges_def)
    from dp2 dp3
    have "0 < length (trim (nullish val [])) \<longrightarrow> distinct_prev ?s3 = Some val"
      by simp
    from elapse_after_same_value [OF held3 this] show ?thesis .
  next
    case False
    with elapse_past_due_state [OF held1 due1 sb1]
    have "debounce ?s2 = None" by blast
    with False have "debounce ?s3 = None"
      by (simp add: valueChanges_def)
    from elapse_idle [OF this] show ?thesis .
  qed
  with rq3 rq2 rq1 dp1 show ?thesis by (simp add: run_def)
qed

theorem dedup_compares_raw_values_witness:
  "sub started = Sub_Active \<and> (250::nat) \<le> 250
   \<and> requests (run [Input (Some (lit ''cat'')), Elapse 250, Input (Some (lit ''cat'')), Elapse 250] started) = [(lit ''cat'', 10)]"
proof -
  have h1: "sub started = Sub_Active" by (simp add: start_defs)
  have h2: "(250::nat) \<le> 250" by simp
  note t = dedup_compares_raw_values [OF h1 h2, of "Some (lit ''cat'')" 250]
  from t [THEN conjunct2]
  show ?thesis using h1 by (simp add: start_defs string_defs nullish_def)
qed

text \<open>
  C5 as stated fails: \<open>cat\<close> and \<open>cat\<close> followed by a space have the same trimmed form,
  are both accepted, and each sends a request for \<open>cat\<close>.
\<close>

theorem dedup_on_trimmed_value_counterexample:
  "trim (lit ''cat'') = trim (lit ''cat '')
   \<and> requests (run [Input (Some (lit ''cat'')), Elapse 250, Input (Some (lit ''cat '')), Elapse 250] started)
      = [(lit ''cat'', 10), (lit ''cat'', 10)]"
  by (simp add: all_defs)

subsection \<open>C6: after ngOnDestroy\<close>

text \<open>
  C6, amended. After \<open>ngOnDestroy\<close>, in any reachable state, whatever timers fire,
  responses or failures arrive and inputs change (no method that selects a suggestion
  being called), no request is sent, no event is posted, and the displayed suggestions,
  the stored query and the stored candidates stay as they are; \<open>isOpen\<close> cannot become
  true, but a blur timer still pending can set it to false.
\<close>

theorem nothing_but_blur_after_destroy:
  assumes "s = step Destroy (run evs0 started)" and "\<forall>sg. Suggestion_Click sg \<notin> set evs"
  shows "suggestions (run evs s) = suggestions s
       \<and> lastQueryForImpression (run evs s) = lastQueryForImpression s
       \<and> lastCandidates (run evs s) = lastCandidates s
       \<and> requests (run evs s) = requests s
       \<and> posts (run evs s) = posts s
       \<and> (isOpen (run evs s) \<longrightarrow> isOpen s)"
proof -
  have "quiet_unless_active (run evs0 started)"
    by (rule quiet_run [OF quiet_started])
  from destroyed_is_closed [OF this]
  have "sub s \<noteq> Sub_Active" "debounce s = None" "inflight s = None"
    by (simp_all add: assms(1))
  from closed_run [OF this assms(2)] show ?thesis .
qed

theorem nothing_but_blur_after_destroy_witness:
  "(\<forall>sg. Suggestion_Click sg \<notin>
      set [Elapse 250, Suggest_Response 0 (SuggestResponse (Some [\<lparr>stext = lit ''cat'', score = 0.9\<rparr>])), Input (Some (lit ''cat'')), Elapse 250])
   \<and> requests (run [Elapse 250, Suggest_Response 0 (SuggestResponse (Some [\<lparr>stext = lit ''cat'', score = 0.9\<rparr>])),
                     Input (Some (lit ''cat'')), Elapse 250]
               (step Destroy (run [Input (Some (lit ''ca'')), Elapse 250, Input (Some (lit ''cat'')), Elapse 100] started)))
      = [(lit ''ca'', 10)]
   \<and> suggestions (run [Elapse 250, Suggest_Response 0 (SuggestResponse (Some [\<lparr>stext = lit ''cat'', score = 0.9\<rparr>])),
                        Input (Some (lit ''cat'')), Elapse 250]
                  (step Destroy (run [Input (Some (lit ''ca'')), Elapse 250, Input (Some (lit ''cat'')), Elapse 100] started)))
      = []
   \<and> posts (run [Elapse 250, Suggest_Response 0 (SuggestResponse (Some [\<lparr>stext = lit ''cat'', score = 0.9\<rparr>])),
                  Input (Some (lit ''cat'')), Elapse 250]
            (step Destroy (run [Input (Some (lit ''ca'')), Elapse 250, Input (Some (lit ''cat'')), Elapse 100] started)))
      = []"
proof -
  have h: "\<forall>sg. Suggestion_Click sg \<notin>
      set [Elapse 250, Suggest_Response 0 (SuggestResponse (Some [\<lparr>stext = lit ''cat'', score = 0.9\<rparr>])), Input (Some (lit ''cat'')), Elapse 250]"
    by simp
  have r: "requests (step Destroy (run [Input (Some (lit ''ca'')), Elapse 250, Input (Some (lit ''cat'')), Elapse 100] started))
             = [(lit ''ca'', 10)]"
    and g: "suggestions (step Destroy (run [Input (Some (lit ''ca'')), Elapse 250, Input (Some (lit ''cat'')), Elapse 100] started))
             = []"
    and p: "posts (step Destroy (run [Input (Some (lit ''ca'')), Elapse 250, Input (Some (lit ''cat'')), Elapse 100] started)) = []"
    by (simp_all add: all_defs)
  from nothing_but_blur_after_destroy [OF refl h,
      of "[Input (Some (lit ''ca'')), Elapse 250, Input (Some (lit ''cat'')), Elapse 100]"]
  show ?thesis using h r g p by simp
qed

text \<open>
  C6 as stated fails: a blur timer set before \<open>ngOnDestroy\<close> fires after it and sets
  \<open>isOpen\<close> to false.
\<close>

theorem blur_timer_after_destroy_counterexample:
  "isOpen (run [Input (Some (lit ''a'')), Elapse 250, Blur, Destroy] started)
   \<and> \<not> isOpen (run [Input (Some (lit ''a'')), Elapse 250, Blur, Destroy, Elapse 150] started)"
  by (simp add: all_defs)

subsection \<open>C7: debounce\<close>

text \<open>
  C7. While the pipeline is subscribed, a burst of input changes, each less than 250 ms
  after the one before, sends no request, and at its end the debounce stage holds the
  last value only. Once 250 ms have passed after the last change, the requests sent are
  those sent before the burst and at most one more, for the last value: exactly one
  when that value is not blank, differs from the value let through before and its
  trimmed form has no lone surrogate (so that the request can be built), and none
  otherwise. No value of the burst but the last yields a request.
\<close>

theorem debounce_lets_last_of_burst_through:
  assumes "sub s = Sub_Active" and "\<forall>(v, g) \<in> set burst. g < 250" and "250 \<le> d"
  shows "requests (run (burst_events burst @ [Input val]) s) = requests s
       \<and> debounce (run (burst_events burst @ [Input val]) s) =
             Some (val, now (run (burst_events burst @ [Input val]) s) + 250)
       \<and> requests (run (burst_events burst @ [Input val, Elapse d]) s) =
             requests s @ (if 0 < length (trim (nullish val [])) \<and> distinct_prev s \<noteq> Some val
                              \<and> isWellFormed (trim (nullish val []))
                           then [(trim (nullish val []), 10)] else [])"
proof -
  let ?s' = "run (burst_events burst @ [Input val]) s"
  note b = burst_holds_last [OF assms(1,2), of val]
  from b have held: "debounce ?s' = Some (val, now ?s' + 250)" by simp
  from assms(3) have "now ?s' + 250 \<le> now ?s' + d" by simp
  from elapse_past_due [OF held this] b
  have "requests (elapse d ?s') =
          requests s @ (if 0 < length (trim (nullish val [])) \<and> distinct_prev s \<noteq> Some val
                           \<and> isWellFormed (trim (nullish val []))
                        then [(trim (nullish val []), 10)] else [])"
    by simp
  moreover have "run (burst_events burst @ [Input val, Elapse d]) s = elapse d ?s'"
    by (simp add: run_def)
  ultimately show ?thesis using b by simp
qed

theorem debounce_lets_last_of_burst_through_witness:
  "sub started = Sub_Active \<and> (100::nat) < 250 \<and> (249::nat) < 250 \<and> (250::nat) \<le> 250
   \<and> requests (run [Input (Some (lit ''c'')), Elapse 100, Input (Some (lit ''ca'')), Elapse 249, Input (Some (lit ''cat'')), Elapse 250] started)
      = [(lit ''cat'', 10)]"
proof -
  have h1: "sub started = Sub_Active" by (simp add: start_defs)
  have h2: "\<forall>(v, g) \<in> set [(Some (lit ''c''), 100), (Some (lit ''ca''), 249)]. g < (250::nat)"
    by simp
  have h3: "(250::nat) \<le> 250" by simp
  from debounce_lets_last_of_burst_through [OF h1 h2 h3, of "Some (lit ''cat'')"]
  show ?thesis using h1 by (simp add: start_defs string_defs nullish_def)
qed

subsection \<open>C8: selecting a suggestion\<close>

text \<open>
  C8. Selecting a suggestion sets the text of the input to the text of the suggestion
  and closes the panel; it sends no request and leaves the debounce stage, the
  de-duplication stage and the request in flight as they are, so that, when no typed
  value is waiting in the debounce stage, no request is sent however long one waits
  after the selection.
\<close>

theorem selection_does_not_retrigger:
  "searchControl (onSuggestionClick sg s) = Some (stext sg)
   \<and> isOpen (onSuggestionClick sg s) = False
   \<and> requests (onSuggestionClick sg s) = requests s
   \<and> debounce (onSuggestionClick sg s) = debounce s
   \<and> distinct_prev (onSuggestionClick sg s) = distinct_prev s
   \<and> inflight (onSuggestionClick sg s) = inflight s
   \<and> (debounce s = None \<longrightarrow> requests (run [Suggestion_Click sg, Elapse d] s) = requests s)"
  by (simp add: run_def onSuggestionClick_def logClick_def post_event_def Let_def
      elapse_def fire_blur_timers_def)

theorem selection_does_not_retrigger_witness:
  "debounce (run [Input (Some (lit ''cat'')), Elapse 250,
                  Suggest_Response 0 (SuggestResponse (Some [\<lparr>stext = lit ''cat'', score = 0.9\<rparr>, \<lparr>stext = lit ''catalog'', score = 0.5\<rparr>]))] started) = None
   \<and> searchControl (onSuggestionClick \<lparr>stext = lit ''catalog'', score = 0.5\<rparr>
        (run [Input (Some (lit ''cat'')), Elapse 250,
              Suggest_Response 0 (SuggestResponse (Some [\<lparr>stext = lit ''cat'', score = 0.9\<rparr>, \<lparr>stext = lit ''catalog'', score = 0.5\<rparr>]))] started))
      = Some (lit ''catalog'')
   \<and> requests (run [Suggestion_Click \<lparr>stext = lit ''catalog'', score = 0.5\<rparr>, Elapse 1000]
        (run [Input (Some (lit ''cat'')), Elapse 250,
              Suggest_Response 0 (SuggestResponse (Some [\<lparr>stext = lit ''cat'', score = 0.9\<rparr>, \<lparr>stext = lit ''catalog'', score = 0.5\<rparr>]))] started))
      = [(lit ''cat'', 10)]"
proof -
  have h: "debounce (run [Input (Some (lit ''cat'')), Elapse 250,
                  Suggest_Response 0 (SuggestResponse (Some [\<lparr>stext = lit ''cat'', score = 0.9\<rparr>, \<lparr>stext = lit ''catalog'', score = 0.5\<rparr>]))] started) = None"
    and r: "requests (run [Input (Some (lit ''cat'')), Elapse 250,
                  Suggest_Response 0 (SuggestResponse (Some [\<lparr>stext = lit ''cat'', score = 0.9\<rparr>, \<lparr>stext = lit ''catalog'', score = 0.5\<rparr>]))] started)
              = [(lit ''cat'', 10)]"
    by (simp_all add: all_defs)
  from selection_does_not_retrigger [of "\<lparr>stext = lit ''catalog'', score = 0.5\<rparr>"
      "run [Input (Some (lit ''cat'')), Elapse 250,
            Suggest_Response 0 (SuggestResponse (Some [\<lparr>stext = lit ''cat'', score = 0.9\<rparr>, \<lparr>stext = lit ''catalog'', score = 0.5\<rparr>]))] started" 1000]
  show ?thesis using h r by simp
qed

subsection \<open>C9: blank input\<close>

text \<open>
  C9. While the pipeline is subscribed, an input change whose trimmed value is empty is
  dropped by the filter, which leaves the component as it is: the change sends no
  request and leaves the displayed suggestions unchanged however long one waits, and
  \<open>isOpen\<close> too (when no blur timer is pending, which would close the panel anyway).
\<close>

theorem blank_input_issues_nothing:
  assumes "length (trim (nullish val [])) = 0" and "sub s = Sub_Active"
  shows "filter_next val s = s
       \<and> requests (run [Input val, Elapse d] s) = requests s
       \<and> suggestions (run [Input val, Elapse d] s) = suggestions s
       \<and> (blur_timers s = [] \<longrightarrow> isOpen (run [Input val, Elapse d] s) = isOpen s)"
  using assms
  by (auto simp: run_def filter_next_def valueChanges_def elapse_def fire_blur_timers_def
      debounce_emit_def Let_def)

theorem blank_input_issues_nothing_witness:
  "length (trim (nullish (Some (lit ''  '')) [])) = 0
   \<and> sub (run [Input (Some (lit ''cat'')), Elapse 250,
               Suggest_Response 0 (SuggestResponse (Some [\<lparr>stext = lit ''cat'', score = 0.9\<rparr>]))] started) = Sub_Active
   \<and> requests (run [Input (Some (lit ''  '')), Elapse 300]
        (run [Input (Some (lit ''cat'')), Elapse 250,
              Suggest_Response 0 (SuggestResponse (Some [\<lparr>stext = lit ''cat'', score = 0.9\<rparr>]))] started))
      = [(lit ''cat'', 10)]
   \<and> suggestions (run [Input (Some (lit ''  '')), Elapse 300]
        (run [Input (Some (lit ''cat'')), Elapse 250,
              Suggest_Response 0 (SuggestResponse (Some [\<lparr>stext = lit ''cat'', score = 0.9\<rparr>]))] started))
      = [\<lparr>stext = lit ''cat'', score = 0.9\<rparr>]
   \<and> isOpen (run [Input (Some (lit ''  '')), Elapse 300]
        (run [Input (Some (lit ''cat'')), Elapse 250,
              Suggest_Response 0 (SuggestResponse (Some [\<lparr>stext = lit ''cat'', score = 0.9\<rparr>]))] started))"
proof -
  have h1: "length (trim (nullish (Some (lit ''  '')) [])) = 0"
    by (simp add: string_defs nullish_def)
  have h2: "sub (run [Input (Some (lit ''cat'')), Elapse 250,
               Suggest_Response 0 (SuggestResponse (Some [\<lparr>stext = lit ''cat'', score = 0.9\<rparr>]))] started) = Sub_Active"
    and r: "requests (run [Input (Some (lit ''cat'')), Elapse 250,
               Suggest_Response 0 (SuggestResponse (Some [\<lparr>stext = lit ''cat'', score = 0.9\<rparr>]))] started) = [(lit ''cat'', 10)]"
    and g: "suggestions (run [Input (Some (lit ''cat'')), Elapse 250,
               Suggest_Response 0 (SuggestResponse (Some [\<lparr>stext = lit ''cat'', score = 0.9\<rparr>]))] started) = [\<lparr>stext = lit ''cat'', score = 0.9\<rparr>]"
    and b: "blur_timers (run [Input (Some (lit ''cat'')), Elapse 250,
               Suggest_Response 0 (SuggestResponse (Some [\<lparr>stext = lit ''cat'', score = 0.9\<rparr>]))] started) = []"
    and o: "isOpen (run [Input (Some (lit ''cat'')), Elapse 250,
               Suggest_Response 0 (SuggestResponse (Some [\<lparr>stext = lit ''cat'', score = 0.9\<rparr>]))] started)"
    by (simp_all add: all_defs)
  from blank_input_issues_nothing [OF h1 h2, of 300]
  show ?thesis using h1 h2 r g b o by simp
qed

subsection \<open>C10: a response without suggestions field\<close>

text \<open>
  C10. A response of the request in flight whose field \<open>suggestions\<close> is null or
  undefined empties the displayed suggestions and the stored candidates and posts no
  event; the component ends in the very state an empty list of suggestions leads to.
\<close>

theorem null_suggestions_as_empty:
  assumes "inflight s = Some i"
  shows "suggestions (step (Suggest_Response i (SuggestResponse None)) s) = []
       \<and> lastCandidates (step (Suggest_Response i (SuggestResponse None)) s) = []
       \<and> posts (step (Suggest_Response i (SuggestResponse None)) s) = posts s
       \<and> step (Suggest_Response i (SuggestResponse None)) s =
           step (Suggest_Response i (SuggestResponse (Some []))) s"
  using assms by (simp add: tap_response_def nullish_def Let_def)

theorem null_suggestions_as_empty_witness:
  "inflight (run [Input (Some (lit ''c'')), Elapse 250, Suggest_Response 0 (SuggestResponse (Some [\<lparr>stext = lit ''cat'', score = 0.9\<rparr>])),
                  Input (Some (lit ''co'')), Elapse 250] started) = Some 1
   \<and> suggestions (step (Suggest_Response 1 (SuggestResponse None))
        (run [Input (Some (lit ''c'')), Elapse 250, Suggest_Response 0 (SuggestResponse (Some [\<lparr>stext = lit ''cat'', score = 0.9\<rparr>])),
              Input (Some (lit ''co'')), Elapse 250] started)) = []
   \<and> posts (step (Suggest_Response 1 (SuggestResponse None))
        (run [Input (Some (lit ''c'')), Elapse 250, Suggest_Response 0 (SuggestResponse (Some [\<lparr>stext = lit ''cat'', score = 0.9\<rparr>])),
              Input (Some (lit ''co'')), Elapse 250] started))
      = [ImpressionEvent (lit ''c'') [lit ''cat''] None]"
proof -
  have h: "inflight (run [Input (Some (lit ''c'')), Elapse 250, Suggest_Response 0 (SuggestResponse (Some [\<lparr>stext = lit ''cat'', score = 0.9\<rparr>])),
                  Input (Some (lit ''co'')), Elapse 250] started) = Some 1"
    and p: "posts (run [Input (Some (lit ''c'')), Elapse 250, Suggest_Response 0 (SuggestResponse (Some [\<lparr>stext = lit ''cat'', score = 0.9\<rparr>])),
                  Input (Some (lit ''co'')), Elapse 250] started) = [ImpressionEvent (lit ''c'') [lit ''cat''] None]"
    by (simp_all add: all_defs)
  note t = null_suggestions_as_empty [OF h]
  from t [THEN conjunct1] t [THEN conjunct2, THEN conjunct2, THEN conjunct1]
  show ?thesis using h p by simp
qed

end
